theory Spec2Isabelle
  imports Main
begin

section \<open>The score generator \<^verbatim>\<open>scripts/generate-midi.py\<close>\<close>

text \<open>
  The script builds one \<^verbatim>\<open>MidiFile\<close> with four tracks (tempo, pad, melody, arpeggio) from
  literal tables and saves it. It has no functions of its own: the model follows its sections
  and loops, statement by statement. Python's integers are \<open>int\<close>. An exception is a value
  \<open>Inl e\<close>; a statement that raises ends the script there.
\<close>

subsection \<open>Messages, tracks and the file object\<close>

datatype error = InvalidConfiguration | InvalidRange | IndexError | IOError

text \<open>
  A message as the script constructs it: its type and the keyword arguments it passes
  (\<open>note_number\<close> is the argument \<^verbatim>\<open>note\<close>, a reserved word here). \<open>time\<close> is the
  delta-time in ticks since the previous message of the same track.
\<close>

datatype message =
    Program_change (program: int) (time: int)
  | Note_on (note_number: int) (velocity: int) (time: int)
  | Note_off (note_number: int) (velocity: int) (time: int)
  | Set_tempo (tempo: int) (time: int)
  | End_of_track (time: int)

text \<open>
  Every track is appended to \<^verbatim>\<open>mid.tracks\<close> while it is still empty and filled afterwards
  through its own variable, so the file sees the later messages only because both names
  refer to the same object. The model keeps the objects in a store (\<open>objects\<close>, addressed
  by position) and \<^verbatim>\<open>mid.tracks\<close> as a list of addresses.
\<close>

record midi_state =
  ticks_per_beat :: int
  tracks :: "nat list"
  objects :: "message list list"

definition bind_err :: "error + 'a \<Rightarrow> ('a \<Rightarrow> error + 'b) \<Rightarrow> error + 'b" where
  "bind_err r f = (case r of Inl e \<Rightarrow> Inl e | Inr x \<Rightarrow> f x)"

text \<open>
  Modelled from the spec: the constructor \<^verbatim>\<open>MidiFile(ticks_per_beat=...)\<close> of the library
  \<^verbatim>\<open>mido\<close>, which is not part of the sources. The spec (createSequence) has it fail with
  InvalidConfiguration on a non-positive resolution. The script appends the control track
  itself (lines 6-7), so the new file object has no track yet.
\<close>

definition MidiFile :: "int \<Rightarrow> error + midi_state" where
  "MidiFile tpb =
     (if 0 < tpb then Inr \<lparr>ticks_per_beat = tpb, tracks = [], objects = []\<rparr>
      else Inl InvalidConfiguration)"

text \<open>\<^verbatim>\<open>MidiTrack()\<close>: a new empty track object; its address is returned.\<close>

definition MidiTrack :: "midi_state \<Rightarrow> nat \<times> midi_state" where
  "MidiTrack st = (length (objects st), st\<lparr>objects := objects st @ [[]]\<rparr>)"

text \<open>\<^verbatim>\<open>mid.tracks.append(t)\<close>\<close>

definition tracks_append :: "nat \<Rightarrow> midi_state \<Rightarrow> midi_state" where
  "tracks_append t st = st\<lparr>tracks := tracks st @ [t]\<rparr>"

text \<open>
  \<^verbatim>\<open>t.append(m)\<close> on the track object at address \<open>t\<close>. Addresses come from \<open>MidiTrack\<close>
  only, so \<open>t\<close> is always allocated (list update leaves the store as it is otherwise).
\<close>

definition track_append :: "nat \<Rightarrow> message \<Rightarrow> midi_state \<Rightarrow> midi_state" where
  "track_append t m st = st\<lparr>objects := (objects st)[t := objects st ! t @ [m]]\<rparr>"

text \<open>
  Modelled from the spec: the message constructors \<^verbatim>\<open>Message('program_change', ...)\<close>,
  \<^verbatim>\<open>Message('note_on', ...)\<close>, \<^verbatim>\<open>Message('note_off', ...)\<close> and
  \<^verbatim>\<open>MetaMessage('set_tempo', ...)\<close> of \<^verbatim>\<open>mido\<close>, not part of the sources. The spec
  (setInstrument, emitNote, section 7) has instrument id, pitch and velocity checked
  against the format's range 0..127 (InvalidRange) and the tempo checked to be positive
  (InvalidConfiguration), eagerly. The tempo message is placed at delta-time 0
  (addTempoEvent); the script passes no \<open>time\<close> for it.
\<close>

definition data_byte :: "int \<Rightarrow> bool" where
  "data_byte v \<longleftrightarrow> 0 \<le> v \<and> v \<le> 127"

definition Message_program_change :: "int \<Rightarrow> int \<Rightarrow> error + message" where
  "Message_program_change p t =
     (if data_byte p then Inr (Program_change p t) else Inl InvalidRange)"

definition Message_note_on :: "int \<Rightarrow> int \<Rightarrow> int \<Rightarrow> error + message" where
  "Message_note_on n v t =
     (if data_byte n \<and> data_byte v then Inr (Note_on n v t) else Inl InvalidRange)"

definition Message_note_off :: "int \<Rightarrow> int \<Rightarrow> int \<Rightarrow> error + message" where
  "Message_note_off n v t =
     (if data_byte n \<and> data_byte v then Inr (Note_off n v t) else Inl InvalidRange)"

definition MetaMessage_set_tempo :: "int \<Rightarrow> error + message" where
  "MetaMessage_set_tempo us =
     (if 0 < us then Inr (Set_tempo us 0) else Inl InvalidConfiguration)"

text \<open>
  The statement \<^verbatim>\<open>t.append(Message(...))\<close>: the constructor runs first, and the track is
  untouched when it raises.
\<close>

definition append_msg :: "nat \<Rightarrow> error + message \<Rightarrow> midi_state \<Rightarrow> error + midi_state" where
  "append_msg t r st = bind_err r (\<lambda>m. Inr (track_append t m st))"

text \<open>\<^verbatim>\<open>xs[i]\<close> for a non-negative literal index: IndexError past the end.\<close>

definition index :: "'a list \<Rightarrow> nat \<Rightarrow> error + 'a" where
  "index xs i = (if i < length xs then Inr (xs ! i) else Inl IndexError)"

text \<open>\<^verbatim>\<open>xs * n\<close>: the list repeated \<open>n\<close> times.\<close>

definition times :: "'a list \<Rightarrow> nat \<Rightarrow> 'a list" where
  "times xs n = concat (replicate n xs)"

subsection \<open>The constants of the script\<close>

text \<open>
  The literals the script passes to the constructors, collected so that a run with another
  value can be stated. \<open>default_config\<close> holds the values of the source.
\<close>

record config =
  cfg_ticks_per_beat :: int
  cfg_tempo :: int
  pad_program :: int
  pad_velocity :: int
  melody_program :: int
  melody_velocity :: int
  arp_program :: int
  arp_velocity :: int

definition default_config :: config where
  "default_config =
     \<lparr>cfg_ticks_per_beat = 480, cfg_tempo = 666667,
      pad_program = 90, pad_velocity = 40,
      melody_program = 73, melody_velocity = 55,
      arp_program = 46, arp_velocity = 35\<rparr>"

definition pad_chords :: "int list list" where
  "pad_chords = [[62, 65, 69], [60, 64, 67], [55, 59, 62], [57, 60, 64]]"

definition phrase_a :: "int list" where
  "phrase_a = [69, 71, 72, 71, 69, 67, 65, 67]"

definition phrase_b :: "int list" where
  "phrase_b = [72, 74, 76, 74, 72, 71, 69, 67]"

definition phrase_c :: "int list" where
  "phrase_c = [67, 69, 71, 72, 71, 69, 67, 65]"

definition arp_patterns :: "int list list" where
  "arp_patterns = [[62, 65, 69, 74], [60, 64, 67, 72], [55, 59, 62, 67], [57, 60, 64, 69]]"

definition file_path :: string where
  "file_path = ''calm_spheric_loop.mid''"

subsection \<open>Tempo track (lines 5-8)\<close>

definition tempo_section :: "config \<Rightarrow> midi_state \<Rightarrow> error + midi_state" where
  "tempo_section c st =
     (case MidiTrack st of (tempo_track, st1) \<Rightarrow>
        append_msg tempo_track (MetaMessage_set_tempo (cfg_tempo c))
          (tracks_append tempo_track st1))"

subsection \<open>Pad track (lines 10-27)\<close>

text \<open>The inner loop \<^verbatim>\<open>for note in chord\<close>: one note_on per pitch, delta-time 0.\<close>

fun pad_note_ons :: "nat \<Rightarrow> int \<Rightarrow> int list \<Rightarrow> midi_state \<Rightarrow> error + midi_state" where
  "pad_note_ons pad vel [] st = Inr st"
| "pad_note_ons pad vel (n # ns) st =
     bind_err (append_msg pad (Message_note_on n vel 0) st) (pad_note_ons pad vel ns)"

text \<open>\<^verbatim>\<open>pad.append(Message('note_off', note=chord[i], velocity=0, time=t))\<close>\<close>

definition pad_note_off :: "nat \<Rightarrow> int list \<Rightarrow> nat \<Rightarrow> int \<Rightarrow> midi_state \<Rightarrow> error + midi_state" where
  "pad_note_off pad chord i t st =
     bind_err (index chord i) (\<lambda>n. append_msg pad (Message_note_off n 0 t) st)"

text \<open>The body of the loop over the chords (lines 23-27).\<close>

definition pad_chord :: "nat \<Rightarrow> int \<Rightarrow> int list \<Rightarrow> midi_state \<Rightarrow> error + midi_state" where
  "pad_chord pad vel chord st =
     bind_err (pad_note_ons pad vel chord st) (\<lambda>st1.
     bind_err (pad_note_off pad chord 0 960 st1) (\<lambda>st2.
     bind_err (pad_note_off pad chord 1 0 st2) (\<lambda>st3.
     pad_note_off pad chord 2 0 st3)))"

fun pad_loop :: "nat \<Rightarrow> int \<Rightarrow> int list list \<Rightarrow> midi_state \<Rightarrow> error + midi_state" where
  "pad_loop pad vel [] st = Inr st"
| "pad_loop pad vel (chord # chords) st =
     bind_err (pad_chord pad vel chord st) (pad_loop pad vel chords)"

definition pad_section :: "config \<Rightarrow> midi_state \<Rightarrow> error + midi_state" where
  "pad_section c st =
     (case MidiTrack st of (pad, st1) \<Rightarrow>
        bind_err (append_msg pad (Message_program_change (pad_program c) 0)
                    (tracks_append pad st1))
          (pad_loop pad (pad_velocity c) (times pad_chords 2)))"

subsection \<open>Melody track (lines 29-42)\<close>

text \<open>\<^verbatim>\<open>enumerate(phrase)\<close>: the items paired with their positions, from 0.\<close>

definition enumerate_from0 :: "'a list \<Rightarrow> (int \<times> 'a) list" where
  "enumerate_from0 xs = zip (map int [0..<length xs]) xs"

text \<open>\<^verbatim>\<open>duration = 960 if i % 4 == 3 else 480\<close>\<close>

definition duration :: "int \<Rightarrow> int" where
  "duration i = (if i mod 4 = 3 then 960 else 480)"

fun melody_notes :: "nat \<Rightarrow> int \<Rightarrow> (int \<times> int) list \<Rightarrow> midi_state \<Rightarrow> error + midi_state" where
  "melody_notes melody vel [] st = Inr st"
| "melody_notes melody vel ((i, n) # rest) st =
     bind_err (append_msg melody (Message_note_on n vel 0) st) (\<lambda>st1.
     bind_err (append_msg melody (Message_note_off n 0 (duration i)) st1)
       (melody_notes melody vel rest))"

fun melody_loop :: "nat \<Rightarrow> int \<Rightarrow> int list list \<Rightarrow> midi_state \<Rightarrow> error + midi_state" where
  "melody_loop melody vel [] st = Inr st"
| "melody_loop melody vel (phrase # phrases) st =
     bind_err (melody_notes melody vel (enumerate_from0 phrase) st)
       (melody_loop melody vel phrases)"

definition melody_section :: "config \<Rightarrow> midi_state \<Rightarrow> error + midi_state" where
  "melody_section c st =
     (case MidiTrack st of (melody, st1) \<Rightarrow>
        bind_err (append_msg melody (Message_program_change (melody_program c) 0)
                    (tracks_append melody st1))
          (melody_loop melody (melody_velocity c) [phrase_a, phrase_b, phrase_a, phrase_c]))"

subsection \<open>Arpeggio track (lines 44-59)\<close>

fun arp_notes :: "nat \<Rightarrow> int \<Rightarrow> int list \<Rightarrow> midi_state \<Rightarrow> error + midi_state" where
  "arp_notes arp vel [] st = Inr st"
| "arp_notes arp vel (n # ns) st =
     bind_err (append_msg arp (Message_note_on n vel 0) st) (\<lambda>st1.
     bind_err (append_msg arp (Message_note_off n 0 240) st1)
       (arp_notes arp vel ns))"

fun arp_loop :: "nat \<Rightarrow> int \<Rightarrow> int list list \<Rightarrow> midi_state \<Rightarrow> error + midi_state" where
  "arp_loop arp vel [] st = Inr st"
| "arp_loop arp vel (pattern # patterns) st =
     bind_err (arp_notes arp vel pattern st) (arp_loop arp vel patterns)"

definition arp_section :: "config \<Rightarrow> midi_state \<Rightarrow> error + midi_state" where
  "arp_section c st =
     (case MidiTrack st of (arp, st1) \<Rightarrow>
        bind_err (append_msg arp (Message_program_change (arp_program c) 0)
                    (tracks_append arp st1))
          (arp_loop arp (arp_velocity c) (times arp_patterns 4)))"

subsection \<open>The whole build (lines 3-59) and the save (lines 61-63)\<close>

definition build :: "config \<Rightarrow> error + midi_state" where
  "build c =
     bind_err (MidiFile (cfg_ticks_per_beat c)) (\<lambda>st0.
     bind_err (tempo_section c st0) (\<lambda>st1.
     bind_err (pad_section c st1) (\<lambda>st2.
     bind_err (melody_section c st2) (\<lambda>st3.
     arp_section c st3))))"

text \<open>The tracks of the file as \<^verbatim>\<open>mid.save\<close> walks them: \<^verbatim>\<open>mid.tracks\<close>, dereferenced.\<close>

definition file_tracks :: "midi_state \<Rightarrow> message list list" where
  "file_tracks st = map (\<lambda>t. objects st ! t) (tracks st)"

text \<open>
  \<^verbatim>\<open>mid.save(file_path)\<close> belongs to the library. The script is modelled over any writer
  \<open>save\<close> and any kind of file system \<open>'fs\<close>: the writer gets the resolution, the tracks and
  the path, and returns the file system it leaves with the error it raised, if any. A
  build that raises never reaches line 63, and the script has no handler: the file system
  is then the one it started with.
\<close>

definition generate_midi ::
  "(int \<Rightarrow> message list list \<Rightarrow> string \<Rightarrow> 'fs \<Rightarrow> error option \<times> 'fs) \<Rightarrow> config \<Rightarrow> 'fs
     \<Rightarrow> error option \<times> 'fs" where
  "generate_midi save c fs =
     (case build c of
        Inl e \<Rightarrow> (Some e, fs)
      | Inr st \<Rightarrow> save (ticks_per_beat st) (file_tracks st) file_path fs)"


subsection \<open>The score as event lists\<close>

text \<open>
  The two note-emitting operations as the spec words them (section 4.1), to compare with
  the loop bodies of the source. \<open>emitNote\<close>: a NoteOn with delta-time 0, then a NoteOff
  with the duration. \<open>emitChord\<close>: one NoteOn per pitch with delta-time 0, then one NoteOff
  per pitch, the first with the duration and the others with delta-time 0.
\<close>

definition emitNote :: "int \<Rightarrow> int \<Rightarrow> int \<Rightarrow> message list" where
  "emitNote pitch vel dur = [Note_on pitch vel 0, Note_off pitch 0 dur]"

definition emitChord :: "int list \<Rightarrow> int \<Rightarrow> int \<Rightarrow> message list" where
  "emitChord pitches vel dur =
     map (\<lambda>p. Note_on p vel 0) pitches @
     (case pitches of [] \<Rightarrow> [] | p # ps \<Rightarrow> Note_off p 0 dur # map (\<lambda>q. Note_off q 0 0) ps)"

text \<open>\<open>track_extend t ms\<close>: the messages \<open>ms\<close> appended, in order, to the track object \<open>t\<close>.\<close>

definition track_extend :: "nat \<Rightarrow> message list \<Rightarrow> midi_state \<Rightarrow> midi_state" where
  "track_extend t ms st = st\<lparr>objects := (objects st)[t := objects st ! t @ ms]\<rparr>"

text \<open>The constants the constructors accept.\<close>

definition valid_config :: "config \<Rightarrow> bool" where
  "valid_config c \<longleftrightarrow>
     0 < cfg_ticks_per_beat c \<and> 0 < cfg_tempo c \<and>
     data_byte (pad_program c) \<and> data_byte (pad_velocity c) \<and>
     data_byte (melody_program c) \<and> data_byte (melody_velocity c) \<and>
     data_byte (arp_program c) \<and> data_byte (arp_velocity c)"

text \<open>The content of each track in closed form; \<open>build_ok\<close> below shows the script produces it.\<close>

definition control_events :: "config \<Rightarrow> message list" where
  "control_events c = [Set_tempo (cfg_tempo c) 0]"

definition pad_events :: "config \<Rightarrow> message list" where
  "pad_events c =
     Program_change (pad_program c) 0 #
     concat (map (\<lambda>ch. emitChord ch (pad_velocity c) 960) (times pad_chords 2))"

definition melody_events :: "config \<Rightarrow> message list" where
  "melody_events c =
     Program_change (melody_program c) 0 #
     concat (map (\<lambda>ph. concat (map (\<lambda>(i, n). emitNote n (melody_velocity c) (duration i))
                                   (enumerate_from0 ph)))
               [phrase_a, phrase_b, phrase_a, phrase_c])"

definition arp_events :: "config \<Rightarrow> message list" where
  "arp_events c =
     Program_change (arp_program c) 0 #
     concat (map (\<lambda>pat. concat (map (\<lambda>n. emitNote n (arp_velocity c) 240) pat))
               (times arp_patterns 4))"

text \<open>
  The tracks of the file the script builds from its own literals, in the order \<^verbatim>\<open>mid.save\<close>
  gets them: control, pad, melody, arpeggio at positions 0 to 3.
\<close>

definition built_tracks :: "message list list" where
  "built_tracks = (case build default_config of Inl e \<Rightarrow> [] | Inr st \<Rightarrow> file_tracks st)"

subsection \<open>Durations and open notes\<close>

text \<open>A track's total duration: the sum of the delta-times of its messages.\<close>

definition total_ticks :: "message list \<Rightarrow> int" where
  "total_ticks ms = sum_list (map time ms)"

fun off_time :: "message \<Rightarrow> int list" where
  "off_time (Note_off n v t) = [t]"
| "off_time m = []"

fun on_time :: "message \<Rightarrow> int list" where
  "on_time (Note_on n v t) = [t]"
| "on_time m = []"

fun is_note_on :: "int \<Rightarrow> message \<Rightarrow> bool" where
  "is_note_on p (Note_on n v t) = (n = p)"
| "is_note_on p m = False"

fun is_note_off :: "int \<Rightarrow> message \<Rightarrow> bool" where
  "is_note_off p (Note_off n v t) = (n = p)"
| "is_note_off p m = False"

text \<open>
  The pitches sounding after a message: a NoteOn opens its pitch, a NoteOff closes one
  open NoteOn of its pitch. A pitch twice in the list is two unmatched NoteOns at once.
\<close>

fun note_step :: "int list \<Rightarrow> message \<Rightarrow> int list" where
  "note_step opn (Note_on n v t) = n # opn"
| "note_step opn (Note_off n v t) = remove1 n opn"
| "note_step opn m = opn"

definition open_notes :: "message list \<Rightarrow> int list" where
  "open_notes ms = foldl note_step [] ms"

definition every_on_closed :: "message list \<Rightarrow> bool" where
  "every_on_closed ms \<longleftrightarrow>
     (\<forall>i p. i < length ms \<and> is_note_on p (ms ! i) \<longrightarrow>
        (\<exists>j. i < j \<and> j < length ms \<and> is_note_off p (ms ! j)))"

definition never_doubly_open :: "message list \<Rightarrow> bool" where
  "never_doubly_open ms \<longleftrightarrow> (\<forall>k. k \<le> length ms \<longrightarrow> distinct (open_notes (take k ms)))"

definition all_closed :: "message list \<Rightarrow> bool" where
  "all_closed ms \<longleftrightarrow> open_notes ms = []"

definition well_formed :: "message list \<Rightarrow> bool" where
  "well_formed ms \<longleftrightarrow> every_on_closed ms \<and> never_doubly_open ms \<and> all_closed ms"

text \<open>The same, as one pass over the track that can be run.\<close>

fun closes :: "int list \<Rightarrow> message list \<Rightarrow> bool" where
  "closes opn [] = (opn = [])"
| "closes opn (m # ms) = (distinct (note_step opn m) \<and> closes (note_step opn m) ms)"

text \<open>
  What one layer may hold: its program change, NoteOns of its velocity and NoteOffs of
  velocity 0, all pitches between 55 and 76.
\<close>

fun layer_bounds :: "int \<Rightarrow> int \<Rightarrow> message \<Rightarrow> bool" where
  "layer_bounds prog vel (Program_change p t) = (p = prog)"
| "layer_bounds prog vel (Note_on n v t) = (55 \<le> n \<and> n \<le> 76 \<and> v = vel)"
| "layer_bounds prog vel (Note_off n v t) = (55 \<le> n \<and> n \<le> 76 \<and> v = 0)"
| "layer_bounds prog vel m = False"

subsection \<open>The file format\<close>

text \<open>
  Modelled from the spec: the serializer behind \<^verbatim>\<open>mid.save\<close> (the library \<^verbatim>\<open>mido\<close>, not part
  of the sources) and a reader for what it writes. The spec (section 6) fixes no layout of
  its own: header magic, chunk lengths, variable-length delta-times and status bytes are
  those of the target format, the Standard MIDI File, which is what this section follows:
  \<^item> a chunk is a four-byte name, the length of its data as four bytes, big-endian, and the
    data;
  \<^item> the header chunk \<^verbatim>\<open>MThd\<close> holds three 16-bit fields: the format (1, the library's
    default, which the script does not change), the number of tracks, the ticks per beat;
  \<^item> each track is a chunk \<^verbatim>\<open>MTrk\<close> of events, an event being a delta-time as a
    variable-length quantity (7 bits per byte, most significant first, the top bit set on
    all bytes but the last) followed by the message;
  \<^item> a channel message is a status byte (\<open>0x80\<close> note off, \<open>0x90\<close> note on, \<open>0xC0\<close> program
    change, on channel 0, the library's default) and its data bytes; the status byte is
    left out when it repeats that of the previous channel message (running status);
  \<^item> a meta message is \<open>0xFF\<close>, a type, a length and data: type \<open>0x51\<close> with three bytes of
    tempo, type \<open>0x2F\<close> with no data for the end of the track, which closes every track.
  A byte is a natural number below 256 (\<open>serialize_bytes\<close>).
\<close>

fun vlq_high :: "nat \<Rightarrow> nat list" where
  "vlq_high n = (if n = 0 then [] else vlq_high (n div 128) @ [128 + n mod 128])"

declare vlq_high.simps [simp del]

definition encode_variable_int :: "nat \<Rightarrow> nat list" where
  "encode_variable_int n = vlq_high (n div 128) @ [n mod 128]"

fun read_variable_int :: "nat \<Rightarrow> nat list \<Rightarrow> (nat \<times> nat list) option" where
  "read_variable_int acc [] = None"
| "read_variable_int acc (b # bs) =
     (if b < 128 then Some (acc * 128 + b, bs)
      else read_variable_int (acc * 128 + b mod 128) bs)"

definition be16 :: "nat \<Rightarrow> nat list" where
  "be16 n = [n div 256 mod 256, n mod 256]"

definition be24 :: "nat \<Rightarrow> nat list" where
  "be24 n = [n div 65536 mod 256, n div 256 mod 256, n mod 256]"

definition be32 :: "nat \<Rightarrow> nat list" where
  "be32 n = [n div 16777216 mod 256, n div 65536 mod 256, n div 256 mod 256, n mod 256]"

definition be_value :: "nat list \<Rightarrow> nat" where
  "be_value bs = foldl (\<lambda>a b. a * 256 + b) 0 bs"

definition bytes :: "nat list \<Rightarrow> bool" where
  "bytes bs \<longleftrightarrow> list_all (\<lambda>b. b < 256) bs"

fun is_meta :: "message \<Rightarrow> bool" where
  "is_meta (Set_tempo us t) = True"
| "is_meta (End_of_track t) = True"
| "is_meta m = False"

fun is_end_of_track :: "message \<Rightarrow> bool" where
  "is_end_of_track (End_of_track t) = True"
| "is_end_of_track m = False"

fun msg_bytes :: "message \<Rightarrow> nat list" where
  "msg_bytes (Note_off n v t) = [0x80, nat n, nat v]"
| "msg_bytes (Note_on n v t) = [0x90, nat n, nat v]"
| "msg_bytes (Program_change p t) = [0xC0, nat p]"
| "msg_bytes (Set_tempo us t) = [0xFF, 0x51, 3] @ be24 (nat us)"
| "msg_bytes (End_of_track t) = [0xFF, 0x2F, 0]"

fun with_time :: "message \<Rightarrow> int \<Rightarrow> message" where
  "with_time (Program_change p t) d = Program_change p d"
| "with_time (Note_on n v t) d = Note_on n v d"
| "with_time (Note_off n v t) d = Note_off n v d"
| "with_time (Set_tempo us t) d = Set_tempo us d"
| "with_time (End_of_track t) d = End_of_track d"

text \<open>
  Every track is written with one end-of-track message, at its end: one found earlier is
  dropped and its delta-time passed on to the message after it. (The script puts none in
  its tracks, so each of them gets \<open>End_of_track 0\<close> appended.)
\<close>

fun fix_end_of_track_from :: "int \<Rightarrow> message list \<Rightarrow> message list" where
  "fix_end_of_track_from accum [] = [End_of_track accum]"
| "fix_end_of_track_from accum (End_of_track t # ms) = fix_end_of_track_from (accum + t) ms"
| "fix_end_of_track_from accum (m # ms) =
     (if accum \<noteq> 0 then with_time m (accum + time m) else m) # fix_end_of_track_from 0 ms"

definition fix_end_of_track :: "message list \<Rightarrow> message list" where
  "fix_end_of_track ms = fix_end_of_track_from 0 ms"

text \<open>The events of a track; \<open>running\<close> is the status byte a next channel message may omit.\<close>

fun track_data :: "nat option \<Rightarrow> message list \<Rightarrow> nat list" where
  "track_data running [] = []"
| "track_data running (m # ms) =
     encode_variable_int (nat (time m)) @
     (if is_meta m then msg_bytes m @ track_data None ms
      else (if Some (hd (msg_bytes m)) = running then tl (msg_bytes m) else msg_bytes m) @
           track_data (Some (hd (msg_bytes m))) ms)"

definition write_chunk :: "nat list \<Rightarrow> nat list \<Rightarrow> nat list" where
  "write_chunk name data = name @ be32 (length data) @ data"

definition MThd :: "nat list" where
  "MThd = [0x4D, 0x54, 0x68, 0x64]"

definition MTrk :: "nat list" where
  "MTrk = [0x4D, 0x54, 0x72, 0x6B]"

definition write_track :: "message list \<Rightarrow> nat list" where
  "write_track ms = write_chunk MTrk (track_data None (fix_end_of_track ms))"

definition write_header :: "nat \<Rightarrow> nat \<Rightarrow> nat list" where
  "write_header ntracks tpb = write_chunk MThd (be16 1 @ be16 ntracks @ be16 tpb)"

text \<open>What fits the fields of the format.\<close>

fun encodable :: "message \<Rightarrow> bool" where
  "encodable (Program_change p t) = (data_byte p \<and> 0 \<le> t)"
| "encodable (Note_on n v t) = (data_byte n \<and> data_byte v \<and> 0 \<le> t)"
| "encodable (Note_off n v t) = (data_byte n \<and> data_byte v \<and> 0 \<le> t)"
| "encodable (Set_tempo us t) = (0 \<le> us \<and> us < 16777216 \<and> 0 \<le> t)"
| "encodable (End_of_track t) = (0 \<le> t)"

text \<open>
  The bytes of the file for a resolution and a list of tracks, in the order of the list;
  \<open>None\<close> when a value does not fit its field.
\<close>

definition serialize :: "int \<Rightarrow> message list list \<Rightarrow> nat list option" where
  "serialize tpb trks =
     (if 0 < tpb \<and> tpb < 32768 \<and> length trks < 32768 \<and>
         list_all (list_all encodable) trks \<and>
         list_all (\<lambda>ms. length (track_data None (fix_end_of_track ms)) < 4294967296) trks
      then Some (write_header (length trks) (nat tpb) @ concat (map write_track trks))
      else None)"

text \<open>The reader. A channel message's data, for the status byte in force:\<close>

fun read_channel :: "nat \<Rightarrow> int \<Rightarrow> nat list \<Rightarrow> (message \<times> nat list) option" where
  "read_channel status delta (a # b # rest) =
     (if status = 0x80 \<and> a < 128 \<and> b < 128 then Some (Note_off (int a) (int b) delta, rest)
      else if status = 0x90 \<and> a < 128 \<and> b < 128 then Some (Note_on (int a) (int b) delta, rest)
      else if status = 0xC0 \<and> a < 128 then Some (Program_change (int a) delta, b # rest)
      else None)"
| "read_channel status delta [a] =
     (if status = 0xC0 \<and> a < 128 then Some (Program_change (int a) delta, []) else None)"
| "read_channel status delta [] = None"

fun read_meta :: "int \<Rightarrow> nat list \<Rightarrow> (message \<times> nat list) option" where
  "read_meta delta (ty # len # rest) =
     (if ty = 0x2F \<and> len = 0 then Some (End_of_track delta, rest)
      else if ty = 0x51 \<and> len = 3 then
        (case rest of
           a # b # c # rest' \<Rightarrow> Some (Set_tempo (int (be_value [a, b, c])) delta, rest')
         | _ \<Rightarrow> None)
      else None)"
| "read_meta delta bs = None"

text \<open>
  One event: the delta-time, then the message. A first byte below \<open>0x80\<close> is data under
  the running status; a meta message leaves the running status as it is.
\<close>

definition read_message ::
  "nat option \<Rightarrow> nat list \<Rightarrow> (message \<times> nat option \<times> nat list) option" where
  "read_message running bs =
     (case read_variable_int 0 bs of
        None \<Rightarrow> None
      | Some (delta, rest) \<Rightarrow>
          (case rest of
             [] \<Rightarrow> None
           | s # rest1 \<Rightarrow>
               if s = 0xFF then
                 map_option (\<lambda>(m, r). (m, running, r)) (read_meta (int delta) rest1)
               else if 0x80 \<le> s then
                 map_option (\<lambda>(m, r). (m, Some s, r)) (read_channel s (int delta) rest1)
               else
                 (case running of
                    None \<Rightarrow> None
                  | Some st \<Rightarrow>
                      map_option (\<lambda>(m, r). (m, running, r))
                        (read_channel st (int delta) (s # rest1)))))"

text \<open>Each event read takes at least one byte, so reading a track's data ends.\<close>

lemma read_variable_int_shorter:
  "read_variable_int acc bs = Some (n, rest) \<Longrightarrow> length rest < length bs"
proof (induction bs arbitrary: acc)
  case Nil
  then show ?case by simp
next
  case (Cons b bs)
  show ?case
  proof (cases "b < 128")
    case True
    with Cons.prems show ?thesis by simp
  next
    case False
    with Cons.prems have "read_variable_int (acc * 128 + b mod 128) bs = Some (n, rest)"
      by simp
    then have "length rest < length bs" by (rule Cons.IH)
    then show ?thesis by simp
  qed
qed

lemma read_channel_shorter:
  "read_channel s d bs = Some (m, rest) \<Longrightarrow> length rest < length bs"
  by (cases "(s, d, bs)" rule: read_channel.cases) (auto split: if_splits)

lemma read_meta_shorter:
  "read_meta d bs = Some (m, rest) \<Longrightarrow> length rest < length bs"
  by (cases "(d, bs)" rule: read_meta.cases) (auto split: if_splits list.splits)

lemma read_message_shorter:
  assumes "read_message running bs = Some (m, running', rest)"
  shows "length rest < length bs"
proof -
  from assms obtain delta rest0 where v: "read_variable_int 0 bs = Some (delta, rest0)"
    by (auto simp: read_message_def split: option.splits)
  then have l0: "length rest0 < length bs"
    by (rule read_variable_int_shorter)
  from assms v obtain s rest1 where r0: "rest0 = s # rest1"
    by (cases rest0) (auto simp: read_message_def)
  consider (meta) "s = 0xFF" | (chan) "s \<noteq> 0xFF" "0x80 \<le> s" | (run) "s < 0x80"
    by linarith
  then have "length rest \<le> length rest0"
  proof cases
    case meta
    with assms v r0 have "read_meta (int delta) rest1 = Some (m, rest)"
      by (auto simp: read_message_def)
    then have "length rest < length rest1" by (rule read_meta_shorter)
    with r0 show ?thesis by simp
  next
    case chan
    with assms v r0 have "read_channel s (int delta) rest1 = Some (m, rest)"
      by (auto simp: read_message_def)
    then have "length rest < length rest1" by (rule read_channel_shorter)
    with r0 show ?thesis by simp
  next
    case run
    with assms v r0 obtain st where "read_channel st (int delta) (s # rest1) = Some (m, rest)"
      by (auto simp: read_message_def split: option.splits)
    then have "length rest < length (s # rest1)" by (rule read_channel_shorter)
    with r0 show ?thesis by simp
  qed
  with l0 show ?thesis by simp
qed

text \<open>The events of a track's data, up to its end or its end-of-track message.\<close>

function read_messages :: "nat option \<Rightarrow> nat list \<Rightarrow> message list option" where
  "read_messages running bs =
     (if bs = [] then Some []
      else (case read_message running bs of
              None \<Rightarrow> None
            | Some (m, running', rest) \<Rightarrow>
                if is_end_of_track m then Some [m]
                else map_option ((#) m) (read_messages running' rest)))"
  by pat_completeness auto
termination
proof (relation "measure (\<lambda>(running, bs). length bs)")
  show "wf (measure (\<lambda>(running, bs). length bs))" by simp
next
  fix running :: "nat option" and bs x2 m y running' rest
  assume "read_message running bs = Some x2" "(m, y) = x2" "(running', rest) = y"
  then have "read_message running bs = Some (m, running', rest)" by simp
  then have "length rest < length bs" by (rule read_message_shorter)
  then show "((running', rest), (running, bs)) \<in> measure (\<lambda>(running, bs). length bs)"
    by simp
qed

declare read_messages.simps [simp del]

definition read_chunk :: "nat list \<Rightarrow> nat list \<Rightarrow> (nat list \<times> nat list) option" where
  "read_chunk name bs =
     (let n = be_value (take 4 (drop 4 bs)) in
      if take 4 bs = name \<and> 8 + n \<le> length bs
      then Some (take n (drop 8 bs), drop (8 + n) bs)
      else None)"

fun read_tracks :: "nat \<Rightarrow> nat list \<Rightarrow> message list list option" where
  "read_tracks 0 bs = Some []"
| "read_tracks (Suc k) bs =
     (case read_chunk MTrk bs of
        None \<Rightarrow> None
      | Some (data, rest) \<Rightarrow>
          (case read_messages None data of
             None \<Rightarrow> None
           | Some ms \<Rightarrow> map_option ((#) ms) (read_tracks k rest)))"

text \<open>The header: format, number of tracks, ticks per beat.\<close>

definition read_header :: "nat list \<Rightarrow> ((nat \<times> nat \<times> nat) \<times> nat list) option" where
  "read_header bs =
     (case read_chunk MThd bs of
        None \<Rightarrow> None
      | Some (data, rest) \<Rightarrow>
          if length data = 6
          then Some ((be_value (take 2 data), be_value (take 2 (drop 2 data)),
                      be_value (take 2 (drop 4 data))), rest)
          else None)"

definition read_file :: "nat list \<Rightarrow> (int \<times> message list list) option" where
  "read_file bs =
     (case read_header bs of
        None \<Rightarrow> None
      | Some ((format, ntracks, division), rest) \<Rightarrow>
          if division < 32768
          then map_option (\<lambda>trks. (int division, trks)) (read_tracks ntracks rest)
          else None)"

text \<open>A track that ends with its one end-of-track message.\<close>

fun eot_last :: "message list \<Rightarrow> bool" where
  "eot_last [] = False"
| "eot_last [m] = is_end_of_track m"
| "eot_last (m # ms) = (\<not> is_end_of_track m \<and> eot_last ms)"

section \<open>The loops of the script in closed form\<close>

lemma bind_err_Inr [simp]: "bind_err (Inr x) f = f x"
  by (simp add: bind_err_def)

lemma bind_err_Inl [simp]: "bind_err (Inl e) f = Inl e"
  by (simp add: bind_err_def)

lemma track_append_extend: "track_append t m st = track_extend t [m] st"
  by (simp add: track_append_def track_extend_def)

lemma track_extend_appends:
  "t < length (objects st) \<Longrightarrow> objects (track_extend t ms st) ! t = objects st ! t @ ms"
  by (simp add: track_extend_def)

lemma track_extend_Nil [simp]: "track_extend t [] st = st"
  by (simp add: track_extend_def)

lemma track_extend_twice [simp]:
  "track_extend t ms2 (track_extend t ms1 st) = track_extend t (ms1 @ ms2) st"
  by (cases "t < length (objects st)") (simp_all add: track_extend_def list_update_beyond)

lemma append_msg_Inr [simp]: "append_msg t (Inr m) st = Inr (track_extend t [m] st)"
  by (simp add: append_msg_def track_append_extend)

lemma append_msg_Inl [simp]: "append_msg t (Inl e) st = Inl e"
  by (simp add: append_msg_def)

lemma note_on_ok [simp]:
  "data_byte n \<Longrightarrow> data_byte v \<Longrightarrow> Message_note_on n v t = Inr (Note_on n v t)"
  by (simp add: Message_note_on_def)

lemma note_off_ok [simp]:
  "data_byte n \<Longrightarrow> data_byte v \<Longrightarrow> Message_note_off n v t = Inr (Note_off n v t)"
  by (simp add: Message_note_off_def)

lemma program_change_ok [simp]:
  "data_byte p \<Longrightarrow> Message_program_change p t = Inr (Program_change p t)"
  by (simp add: Message_program_change_def)

lemma data_byte_0 [simp]: "data_byte 0"
  by (simp add: data_byte_def)

lemma times_2: "times xs 2 = xs @ xs"
  by (simp add: times_def numeral_2_eq_2)

lemma times_4: "times xs 4 = xs @ xs @ xs @ xs"
  by (simp add: times_def eval_nat_numeral)

lemma replicate_numeral: "replicate (numeral k) x = x # replicate (pred_numeral k) x"
  by (simp add: numeral_eq_Suc)

subsection \<open>Pad\<close>

lemma pad_note_ons_ok:
  "list_all data_byte ns \<Longrightarrow> data_byte v \<Longrightarrow>
   pad_note_ons t v ns st = Inr (track_extend t (map (\<lambda>n. Note_on n v 0) ns) st)"
  by (induction ns arbitrary: st) simp_all

text \<open>
  On a chord of three pitches the loop body is \<open>emitChord\<close> with duration 960. (On a longer
  chord it would close only the first three pitches, on a shorter one raise IndexError;
  the table has neither.)
\<close>

lemma pad_chord_ok:
  assumes "length chord = 3" "list_all data_byte chord" "data_byte v"
  shows "pad_chord t v chord st = Inr (track_extend t (emitChord chord v 960) st)"
proof -
  from assms(1) obtain a b c where ch: "chord = [a, b, c]"
    by (auto simp: length_Suc_conv numeral_3_eq_3)
  with assms show ?thesis
    by (simp add: pad_chord_def pad_note_ons_ok pad_note_off_def index_def emitChord_def)
qed

lemma pad_loop_ok:
  "list_all (\<lambda>ch. length ch = 3 \<and> list_all data_byte ch) chords \<Longrightarrow> data_byte v \<Longrightarrow>
   pad_loop t v chords st =
     Inr (track_extend t (concat (map (\<lambda>ch. emitChord ch v 960) chords)) st)"
  by (induction chords arbitrary: st) (simp_all add: pad_chord_ok)

lemma pad_chords_ok:
  "list_all (\<lambda>ch. length ch = 3 \<and> list_all data_byte ch) (times pad_chords 2)"
  by (simp add: pad_chords_def times_2 data_byte_def)

subsection \<open>Melody\<close>

lemma melody_notes_ok:
  "list_all (\<lambda>(i, n). data_byte n) ins \<Longrightarrow> data_byte v \<Longrightarrow>
   melody_notes t v ins st =
     Inr (track_extend t (concat (map (\<lambda>(i, n). emitNote n v (duration i)) ins)) st)"
  by (induction ins arbitrary: st) (auto simp: emitNote_def)

lemma enumerate_data_byte:
  "list_all data_byte ph \<Longrightarrow> list_all (\<lambda>(i, n). data_byte n) (enumerate_from0 ph)"
  by (auto simp: enumerate_from0_def list_all_iff dest: set_zip_rightD)

lemma melody_loop_ok:
  "list_all (list_all data_byte) phrases \<Longrightarrow> data_byte v \<Longrightarrow>
   melody_loop t v phrases st =
     Inr (track_extend t
       (concat (map (\<lambda>ph. concat (map (\<lambda>(i, n). emitNote n v (duration i)) (enumerate_from0 ph)))
          phrases)) st)"
  by (induction phrases arbitrary: st) (simp_all add: melody_notes_ok enumerate_data_byte)

lemma phrases_ok: "list_all (list_all data_byte) [phrase_a, phrase_b, phrase_a, phrase_c]"
  by (simp add: phrase_a_def phrase_b_def phrase_c_def data_byte_def)

subsection \<open>Arpeggio\<close>

lemma arp_notes_ok:
  "list_all data_byte ns \<Longrightarrow> data_byte v \<Longrightarrow>
   arp_notes t v ns st = Inr (track_extend t (concat (map (\<lambda>n. emitNote n v 240) ns)) st)"
  by (induction ns arbitrary: st) (simp_all add: emitNote_def)

lemma arp_loop_ok:
  "list_all (list_all data_byte) patterns \<Longrightarrow> data_byte v \<Longrightarrow>
   arp_loop t v patterns st =
     Inr (track_extend t
       (concat (map (\<lambda>pat. concat (map (\<lambda>n. emitNote n v 240) pat)) patterns)) st)"
  by (induction patterns arbitrary: st) (simp_all add: arp_notes_ok)

lemma arp_patterns_ok: "list_all (list_all data_byte) (times arp_patterns 4)"
  by (simp add: arp_patterns_def times_4 data_byte_def)

subsection \<open>Sections and the whole build\<close>

lemma new_track_extend:
  "track_extend (length (objects st)) ms
     (tracks_append (length (objects st)) (st\<lparr>objects := objects st @ [[]]\<rparr>))
   = st\<lparr>tracks := tracks st @ [length (objects st)], objects := objects st @ [ms]\<rparr>"
  by (simp add: track_extend_def tracks_append_def)

lemma tempo_section_ok:
  "0 < cfg_tempo c \<Longrightarrow>
   tempo_section c st =
     Inr (st\<lparr>tracks := tracks st @ [length (objects st)],
              objects := objects st @ [control_events c]\<rparr>)"
  by (simp add: tempo_section_def MidiTrack_def MetaMessage_set_tempo_def new_track_extend
      control_events_def)

lemma pad_section_ok:
  "data_byte (pad_program c) \<Longrightarrow> data_byte (pad_velocity c) \<Longrightarrow>
   pad_section c st =
     Inr (st\<lparr>tracks := tracks st @ [length (objects st)],
              objects := objects st @ [pad_events c]\<rparr>)"
  by (simp add: pad_section_def MidiTrack_def pad_loop_ok pad_chords_ok pad_events_def
      flip: new_track_extend)

lemma melody_section_ok:
  "data_byte (melody_program c) \<Longrightarrow> data_byte (melody_velocity c) \<Longrightarrow>
   melody_section c st =
     Inr (st\<lparr>tracks := tracks st @ [length (objects st)],
              objects := objects st @ [melody_events c]\<rparr>)"
  by (simp add: melody_section_def MidiTrack_def melody_loop_ok [OF phrases_ok]
      melody_events_def del: melody_loop.simps flip: new_track_extend)

lemma arp_section_ok:
  "data_byte (arp_program c) \<Longrightarrow> data_byte (arp_velocity c) \<Longrightarrow>
   arp_section c st =
     Inr (st\<lparr>tracks := tracks st @ [length (objects st)],
              objects := objects st @ [arp_events c]\<rparr>)"
  by (simp add: arp_section_def MidiTrack_def arp_loop_ok arp_patterns_ok arp_events_def
      flip: new_track_extend)

text \<open>A program id the constructor rejects ends the section before any note is added.\<close>

lemma pad_section_bad:
  "\<not> data_byte (pad_program c) \<Longrightarrow> pad_section c st = Inl InvalidRange"
  by (simp add: pad_section_def MidiTrack_def Message_program_change_def)

lemma melody_section_bad:
  "\<not> data_byte (melody_program c) \<Longrightarrow> melody_section c st = Inl InvalidRange"
  by (simp add: melody_section_def MidiTrack_def Message_program_change_def)

lemma arp_section_bad:
  "\<not> data_byte (arp_program c) \<Longrightarrow> arp_section c st = Inl InvalidRange"
  by (simp add: arp_section_def MidiTrack_def Message_program_change_def)

text \<open>With constants the constructors accept, the build raises nothing.\<close>

lemma build_ok:
  "valid_config c \<Longrightarrow>
   build c = Inr \<lparr>ticks_per_beat = cfg_ticks_per_beat c, tracks = [0, 1, 2, 3],
                  objects = [control_events c, pad_events c, melody_events c, arp_events c]\<rparr>"
  by (simp add: valid_config_def build_def MidiFile_def tempo_section_ok pad_section_ok
      melody_section_ok arp_section_ok)

lemma valid_default_config: "valid_config default_config"
  by (simp add: valid_config_def default_config_def data_byte_def)

lemma built_tracks_eq:
  "built_tracks = [control_events default_config, pad_events default_config,
                   melody_events default_config, arp_events default_config]"
  by (simp add: built_tracks_def build_ok [OF valid_default_config] file_tracks_def)

lemma build_default:
  "build default_config =
     Inr \<lparr>ticks_per_beat = 480, tracks = [0, 1, 2, 3], objects = built_tracks\<rparr>"
  unfolding built_tracks_eq build_ok [OF valid_default_config]
  by (simp add: default_config_def)

lemmas score_defs = replicate_numeral pad_events_def melody_events_def arp_events_def
  control_events_def default_config_def pad_chords_def times_def emitChord_def emitNote_def
  phrase_a_def phrase_b_def phrase_c_def arp_patterns_def enumerate_from0_def upt_rec
  duration_def

section \<open>Open and closed notes\<close>

lemma stays_open:
  "p \<in> set opn \<Longrightarrow> \<forall>m \<in> set ms. \<not> is_note_off p m \<Longrightarrow> p \<in> set (foldl note_step opn ms)"
proof (induction ms arbitrary: opn)
  case Nil
  then show ?case by simp
next
  case (Cons m ms)
  have "p \<in> set (note_step opn m)"
  proof (cases m)
    case (Note_off n v t)
    with Cons.prems have "n \<noteq> p" by auto
    with Cons.prems(1) Note_off show ?thesis by simp
  qed (use Cons.prems(1) in simp_all)
  with Cons show ?case by simp
qed

lemma opened_by_note_on: "is_note_on p m \<Longrightarrow> p \<in> set (note_step opn m)"
  by (cases m) simp_all

text \<open>A track that ends with no note open has a later NoteOff for each of its NoteOns.\<close>

lemma all_closed_every_on_closed:
  assumes "all_closed ms"
  shows "every_on_closed ms"
  unfolding every_on_closed_def
proof (intro allI impI, elim conjE)
  fix i p
  assume i: "i < length ms" and on: "is_note_on p (ms ! i)"
  have split: "ms = take i ms @ ms ! i # drop (Suc i) ms"
    using i by (simp add: id_take_nth_drop)
  define opn where "opn = note_step (foldl note_step [] (take i ms)) (ms ! i)"
  have "p \<in> set opn"
    unfolding opn_def using on by (rule opened_by_note_on)
  moreover have "foldl note_step opn (drop (Suc i) ms) = []"
  proof -
    have "open_notes ms = foldl note_step [] (take i ms @ ms ! i # drop (Suc i) ms)"
      unfolding open_notes_def using split by simp
    then show ?thesis
      using assms by (simp add: all_closed_def opn_def)
  qed
  ultimately have "\<not> (\<forall>m \<in> set (drop (Suc i) ms). \<not> is_note_off p m)"
    using stays_open [of p opn "drop (Suc i) ms"] by auto
  then obtain m where "m \<in> set (drop (Suc i) ms)" "is_note_off p m" by blast
  then obtain k where k: "k < length (drop (Suc i) ms)" "drop (Suc i) ms ! k = m"
    by (auto simp: in_set_conv_nth)
  then have "Suc i + k < length ms" "ms ! (Suc i + k) = m" by auto
  with \<open>is_note_off p m\<close> show "\<exists>j. i < j \<and> j < length ms \<and> is_note_off p (ms ! j)"
    by (intro exI [of _ "Suc i + k"]) simp
qed

lemma closes_prefixes:
  "closes opn ms \<Longrightarrow> distinct opn \<Longrightarrow> k \<le> length ms \<Longrightarrow>
   distinct (foldl note_step opn (take k ms))"
proof (induction ms arbitrary: opn k)
  case Nil
  then show ?case by simp
next
  case (Cons m ms)
  then show ?case by (cases k) simp_all
qed

lemma closes_end: "closes opn ms \<Longrightarrow> foldl note_step opn ms = []"
  by (induction ms arbitrary: opn) simp_all

lemma closes_well_formed: "closes [] ms \<Longrightarrow> well_formed ms"
  unfolding well_formed_def
proof (intro conjI)
  assume c: "closes [] ms"
  then show ac: "all_closed ms"
    by (simp add: all_closed_def open_notes_def closes_end)
  then show "every_on_closed ms"
    by (rule all_closed_every_on_closed)
  show "never_doubly_open ms"
    using c by (simp add: never_doubly_open_def open_notes_def closes_prefixes)
qed

lemma pad_closes: "closes [] (pad_events default_config)"
  by (simp add: score_defs)

lemma melody_closes: "closes [] (melody_events default_config)"
  by (simp add: score_defs)

lemma arp_closes: "closes [] (arp_events default_config)"
  by (simp add: score_defs)

section \<open>Writing and reading the file\<close>

subsection \<open>Variable-length quantities and big-endian fields\<close>

lemma vlq_high_0 [simp]: "vlq_high 0 = []"
  by (simp add: vlq_high.simps)

lemma vlq_high_pos: "0 < n \<Longrightarrow> vlq_high n = vlq_high (n div 128) @ [128 + n mod 128]"
  by (subst vlq_high.simps) simp

lemma read_vlq_high: "read_variable_int 0 (vlq_high m @ bs) = read_variable_int m bs"
proof (induction m arbitrary: bs rule: vlq_high.induct)
  case (1 n)
  show ?case
  proof (cases "n = 0")
    case True
    then show ?thesis by simp
  next
    case False
    then have "read_variable_int 0 (vlq_high n @ bs) =
        read_variable_int 0 (vlq_high (n div 128) @ (128 + n mod 128) # bs)"
      by (simp add: vlq_high_pos)
    also have "\<dots> = read_variable_int (n div 128) ((128 + n mod 128) # bs)"
      using False by (rule "1.IH")
    also have "\<dots> = read_variable_int (n div 128 * 128 + n mod 128) bs"
      by simp
    finally show ?thesis by simp
  qed
qed

lemma read_encode_variable_int:
  "read_variable_int 0 (encode_variable_int n @ bs) = Some (n, bs)"
  by (simp add: encode_variable_int_def read_vlq_high)

lemma encode_variable_int_not_Nil [simp]: "encode_variable_int n @ bs \<noteq> []"
  by (simp add: encode_variable_int_def)

lemma div_mod_256: "(n::nat) div 256 * 256 + n mod 256 = n"
  by simp

lemma div_65536: "(n::nat) div 65536 = n div 256 div 256"
  by (simp add: div_mult2_eq)

lemma div_16777216: "(n::nat) div 16777216 = n div 256 div 256 div 256"
  by (simp add: div_mult2_eq)

lemma be_value_be16: "n < 65536 \<Longrightarrow> be_value (be16 n) = n"
proof -
  assume "n < 65536"
  then have "n div 256 < 256" by simp
  then show ?thesis
    by (simp add: be_value_def be16_def)
qed

lemma be_value_be24: "n < 16777216 \<Longrightarrow> be_value (be24 n) = n"
proof -
  assume "n < 16777216"
  then have "n div 256 div 256 < 256" by (simp add: div_mult2_eq)
  then show ?thesis
    by (simp add: be_value_def be24_def div_65536 div_mod_256)
qed

lemma be_value_be32: "n < 4294967296 \<Longrightarrow> be_value (be32 n) = n"
proof -
  assume "n < 4294967296"
  then have "n div 256 div 256 div 256 < 256" by (simp add: div_mult2_eq)
  then show ?thesis
    by (simp add: be_value_def be32_def div_65536 div_16777216 div_mod_256)
qed

subsection \<open>Messages and tracks\<close>

lemma data_byte_nonneg: "data_byte v \<Longrightarrow> 0 \<le> v"
  by (simp add: data_byte_def)

lemma nat_data_byte_less: "data_byte v \<Longrightarrow> nat v < 128"
  unfolding data_byte_def by linarith

lemma encode_variable_int_not_Nil2 [simp]: "encode_variable_int n \<noteq> []"
  by (simp add: encode_variable_int_def)

lemma read_channel_msg:
  assumes "encodable m" "\<not> is_meta m"
  shows "read_channel (hd (msg_bytes m)) (time m) (tl (msg_bytes m) @ rest) = Some (m, rest)"
  using assms
  by (cases m; cases rest) (simp_all add: data_byte_nonneg nat_data_byte_less)

lemma status_range:
  assumes "\<not> is_meta m"
  shows "0x80 \<le> hd (msg_bytes m)" "hd (msg_bytes m) \<noteq> 0xFF" "msg_bytes m \<noteq> []"
  using assms by (cases m; simp)+

lemma data_below_status:
  assumes "encodable m" "\<not> is_meta m"
  shows "\<exists>a as. tl (msg_bytes m) = a # as \<and> a < 128"
  using assms by (cases m) (simp_all add: nat_data_byte_less)

lemma read_meta_msg:
  assumes "encodable m" "is_meta m"
  shows "\<exists>bs. msg_bytes m = 0xFF # bs \<and> read_meta (time m) (bs @ rest) = Some (m, rest)"
proof (cases m)
  case (Set_tempo us t)
  with assms have us: "nat us < 16777216" "0 \<le> us" by auto
  obtain a b c where abc: "be24 (nat us) = [a, b, c]"
    by (simp add: be24_def)
  from us(1) have "be_value (be24 (nat us)) = nat us"
    by (rule be_value_be24)
  with abc us(2) have "int (be_value [a, b, c]) = us" by simp
  with Set_tempo abc show ?thesis by simp
next
  case (End_of_track t)
  then show ?thesis by simp
qed (use assms in simp_all)

lemma time_nonneg: "encodable m \<Longrightarrow> 0 \<le> time m"
  by (cases m) simp_all

text \<open>One message written, then read.\<close>

lemma read_message_written:
  assumes enc: "encodable m" and run: "written = None \<or> written = running"
  shows "read_message running (track_data written (m # ms)) =
           Some (m, (if is_meta m then running else Some (hd (msg_bytes m))),
                 track_data (if is_meta m then None else Some (hd (msg_bytes m))) ms)"
proof (cases "is_meta m")
  case True
  with enc obtain bs where bs: "msg_bytes m = 0xFF # bs"
    "read_meta (time m) (bs @ track_data None ms) = Some (m, track_data None ms)"
    using read_meta_msg by blast
  with True enc show ?thesis
    by (simp add: read_message_def read_encode_variable_int time_nonneg)
next
  case False
  let ?s = "hd (msg_bytes m)"
  let ?rest = "track_data (Some ?s) ms"
  from False have st: "0x80 \<le> ?s" "?s \<noteq> 0xFF" "msg_bytes m \<noteq> []"
    by (rule status_range)+
  then have bytes: "msg_bytes m = ?s # tl (msg_bytes m)" by simp
  have chan: "read_channel ?s (time m) (tl (msg_bytes m) @ ?rest) = Some (m, ?rest)"
    using enc False by (rule read_channel_msg)
  show ?thesis
  proof (cases "Some ?s = written")
    case True
    with run have r: "running = Some ?s" by auto
    from enc False obtain a as where a: "tl (msg_bytes m) = a # as" "a < 128"
      using data_below_status by blast
    with chan have "read_channel ?s (time m) (a # as @ ?rest) = Some (m, ?rest)" by simp
    with True [symmetric] False r a enc show ?thesis
      by (simp add: read_message_def read_encode_variable_int time_nonneg)
  next
    case diff: False
    have "track_data written (m # ms) =
        encode_variable_int (nat (time m)) @ ?s # tl (msg_bytes m) @ ?rest"
      using False diff bytes by (simp del: msg_bytes.simps)
    with chan st False enc show ?thesis
      by (simp add: read_message_def read_encode_variable_int time_nonneg
          del: track_data.simps msg_bytes.simps)
  qed
qed

lemma track_data_not_Nil: "track_data written (m # ms) \<noteq> []"
  by simp

lemma is_meta_end_of_track: "is_end_of_track m \<Longrightarrow> is_meta m"
  by (cases m) simp_all

text \<open>A track that ends with its only end-of-track message is read back as written.\<close>

lemma read_messages_written:
  "list_all encodable ms \<Longrightarrow> eot_last ms \<Longrightarrow> written = None \<or> written = running \<Longrightarrow>
   read_messages running (track_data written ms) = Some ms"
proof (induction ms arbitrary: written running)
  case Nil
  then show ?case by simp
next
  case (Cons m ms)
  from Cons.prems(1) have enc: "encodable m" "list_all encodable ms" by simp_all
  note rd = read_message_written [OF enc(1) Cons.prems(3), of ms]
  show ?case
  proof (cases "is_end_of_track m")
    case True
    with Cons.prems(2) have "ms = []" by (cases ms) simp_all
    with True rd show ?thesis
      by (subst read_messages.simps) (simp del: track_data.simps add: track_data_not_Nil)
  next
    case False
    with Cons.prems(2) have last: "eot_last ms" by (cases ms) simp_all
    let ?w = "if is_meta m then None else Some (hd (msg_bytes m))"
    let ?r = "if is_meta m then running else Some (hd (msg_bytes m))"
    have "?w = None \<or> ?w = ?r" by simp
    with enc(2) last have "read_messages ?r (track_data ?w ms) = Some ms"
      by (rule Cons.IH)
    with False rd show ?thesis
      by (subst read_messages.simps) (simp del: track_data.simps add: track_data_not_Nil)
  qed
qed

lemma time_with_time [simp]: "time (with_time m d) = d"
  by (cases m) simp_all

lemma is_end_of_track_with_time [simp]: "is_end_of_track (with_time m d) = is_end_of_track m"
  by (cases m) simp_all

lemma encodable_with_time: "encodable m \<Longrightarrow> 0 \<le> d \<Longrightarrow> encodable (with_time m d)"
  by (cases m) simp_all

lemma fix_end_of_track_from_not_Nil [simp]: "fix_end_of_track_from a ms \<noteq> []"
  by (induction a ms rule: fix_end_of_track_from.induct) simp_all

lemma eot_last_Cons: "\<not> is_end_of_track m \<Longrightarrow> ms \<noteq> [] \<Longrightarrow> eot_last (m # ms) = eot_last ms"
  by (cases ms) simp_all

text \<open>Moving the end-of-track message to the end keeps the sum of the delta-times.\<close>

lemma total_ticks_fix_from: "total_ticks (fix_end_of_track_from a ms) = a + total_ticks ms"
  by (induction a ms rule: fix_end_of_track_from.induct) (simp_all add: total_ticks_def)

lemma total_ticks_fix_end_of_track: "total_ticks (fix_end_of_track ms) = total_ticks ms"
  by (simp add: fix_end_of_track_def total_ticks_fix_from)

lemma eot_last_fix_from: "eot_last (fix_end_of_track_from a ms)"
  by (induction a ms rule: fix_end_of_track_from.induct) (simp_all add: eot_last_Cons)

lemma encodable_fix_from:
  "list_all encodable ms \<Longrightarrow> 0 \<le> a \<Longrightarrow> list_all encodable (fix_end_of_track_from a ms)"
  by (induction a ms rule: fix_end_of_track_from.induct)
     (simp_all add: encodable_with_time time_nonneg)

lemma fix_from_no_end_of_track:
  "list_all (\<lambda>m. \<not> is_end_of_track m) ms \<Longrightarrow> fix_end_of_track_from 0 ms = ms @ [End_of_track 0]"
  by (induction ms) (auto elim: is_end_of_track.elims)

text \<open>A written track, read: the messages with the end-of-track message in its place.\<close>

lemma read_track_data:
  assumes "list_all encodable ms"
  shows "read_messages None (track_data None (fix_end_of_track ms)) = Some (fix_end_of_track ms)"
  unfolding fix_end_of_track_def
  using assms by (intro read_messages_written encodable_fix_from eot_last_fix_from) simp_all

lemma length_be32 [simp]: "length (be32 n) = 4"
  by (simp add: be32_def)

lemma read_chunk_written:
  assumes "length name = 4" "length data < 4294967296"
  shows "read_chunk name (write_chunk name data @ rest) = Some (data, rest)"
proof -
  have "take 4 (drop 4 (write_chunk name data @ rest)) = be32 (length data)"
    using assms(1) by (simp add: write_chunk_def)
  moreover have "be_value (be32 (length data)) = length data"
    using assms(2) by (rule be_value_be32)
  moreover have "take 4 (write_chunk name data @ rest) = name"
    using assms(1) by (simp add: write_chunk_def)
  moreover have "drop 8 (write_chunk name data @ rest) = data @ rest"
    using assms(1) by (simp add: write_chunk_def)
  moreover have "length (write_chunk name data @ rest) = 8 + length data + length rest"
    using assms(1) by (simp add: write_chunk_def)
  ultimately show ?thesis
    by (simp add: read_chunk_def Let_def)
qed

lemma length_be16 [simp]: "length (be16 n) = 2"
  by (simp add: be16_def)

lemma length_MTrk [simp]: "length MTrk = 4"
  by (simp add: MTrk_def)

lemma length_MThd [simp]: "length MThd = 4"
  by (simp add: MThd_def)

lemma read_tracks_written:
  "list_all (list_all encodable) trks \<Longrightarrow>
   list_all (\<lambda>ms. length (track_data None (fix_end_of_track ms)) < 4294967296) trks \<Longrightarrow>
   read_tracks (length trks) (concat (map write_track trks) @ rest) =
     Some (map fix_end_of_track trks)"
proof (induction trks)
  case Nil
  then show ?case by simp
next
  case (Cons ms trks)
  then have "read_chunk MTrk (write_track ms @ concat (map write_track trks) @ rest) =
      Some (track_data None (fix_end_of_track ms), concat (map write_track trks) @ rest)"
    unfolding write_track_def by (intro read_chunk_written) simp_all
  with Cons show ?case
    by (simp add: read_track_data)
qed

lemma read_header_written:
  assumes "ntracks < 65536" "tpb < 65536"
  shows "read_header (write_header ntracks tpb @ rest) = Some ((1, ntracks, tpb), rest)"
proof -
  let ?data = "be16 1 @ be16 ntracks @ be16 tpb"
  have len: "length ?data = 6" by simp
  then have "read_chunk MThd (write_chunk MThd ?data @ rest) = Some (?data, rest)"
    by (intro read_chunk_written) simp_all
  moreover have "take 2 ?data = be16 1" "take 2 (drop 2 ?data) = be16 ntracks"
    "take 2 (drop 4 ?data) = be16 tpb"
    by simp_all
  ultimately show ?thesis
    using assms len by (simp add: read_header_def write_header_def be_value_be16)
qed

text \<open>The whole file, written and read.\<close>

lemma read_file_serialize:
  assumes "serialize tpb trks = Some bs"
  shows "read_file bs = Some (tpb, map fix_end_of_track trks)"
proof -
  from assms have ok: "0 < tpb" "tpb < 32768" "length trks < 32768"
    "list_all (list_all encodable) trks"
    "list_all (\<lambda>ms. length (track_data None (fix_end_of_track ms)) < 4294967296) trks"
    and bs: "bs = write_header (length trks) (nat tpb) @ concat (map write_track trks)"
    by (auto simp: serialize_def split: if_splits)
  from ok(1,2) have tpb: "nat tpb < 32768" "int (nat tpb) = tpb" by simp_all
  have "read_header bs = Some ((1, length trks, nat tpb), concat (map write_track trks))"
    unfolding bs using ok(3) tpb(1) by (intro read_header_written) simp_all
  moreover have "read_tracks (length trks) (concat (map write_track trks)) =
      Some (map fix_end_of_track trks)"
    using read_tracks_written [OF ok(4,5), of "[]"] by simp
  ultimately show ?thesis
    using tpb by (simp add: read_file_def)
qed

subsection \<open>Bytes\<close>

lemma bytes_append [simp]: "bytes (xs @ ys) \<longleftrightarrow> bytes xs \<and> bytes ys"
  by (simp add: bytes_def)

lemma bytes_Nil [simp]: "bytes []"
  by (simp add: bytes_def)

lemma bytes_Cons [simp]: "bytes (b # bs) \<longleftrightarrow> b < 256 \<and> bytes bs"
  by (simp add: bytes_def)

lemma bytes_vlq_high: "bytes (vlq_high n)"
proof (induction n rule: vlq_high.induct)
  case (1 n)
  show ?case
  proof (cases "n = 0")
    case True
    then show ?thesis by simp
  next
    case False
    have "128 + n mod 128 < 256" by simp
    with False 1 show ?thesis by (simp add: vlq_high_pos)
  qed
qed

lemma bytes_encode_variable_int: "bytes (encode_variable_int n)"
proof -
  have "n mod 128 < 256" by (rule less_trans [OF mod_less_divisor]) simp_all
  then show ?thesis by (simp add: encode_variable_int_def bytes_vlq_high)
qed

lemma bytes_be: "bytes (be16 n)" "bytes (be24 n)" "bytes (be32 n)"
  by (simp_all add: be16_def be24_def be32_def)

lemma bytes_msg: "encodable m \<Longrightarrow> bytes (msg_bytes m)"
proof (cases m)
  case (Set_tempo us t)
  then show ?thesis by (simp add: bytes_be)
qed (auto dest: nat_data_byte_less)

lemma bytes_tl: "bytes bs \<Longrightarrow> bytes (tl bs)"
  by (cases bs) simp_all

lemma bytes_track_data: "list_all encodable ms \<Longrightarrow> bytes (track_data written ms)"
  by (induction ms arbitrary: written)
     (simp_all add: bytes_encode_variable_int bytes_msg bytes_tl del: msg_bytes.simps)

lemma bytes_write_chunk: "bytes name \<Longrightarrow> bytes data \<Longrightarrow> bytes (write_chunk name data)"
  by (simp add: write_chunk_def bytes_be)

lemma bytes_write_track: "list_all encodable ms \<Longrightarrow> bytes (write_track ms)"
  unfolding write_track_def fix_end_of_track_def
  by (intro bytes_write_chunk bytes_track_data encodable_fix_from) (simp_all add: MTrk_def)

lemma bytes_concat: "list_all bytes bss \<Longrightarrow> bytes (concat bss)"
  by (induction bss) simp_all

text \<open>What is written is a string of bytes.\<close>

lemma serialize_bytes:
  assumes "serialize tpb trks = Some bs"
  shows "bytes bs"
proof -
  from assms have enc: "list_all (list_all encodable) trks"
    and bs: "bs = write_header (length trks) (nat tpb) @ concat (map write_track trks)"
    by (auto simp: serialize_def split: if_splits)
  from enc have "list_all bytes (map write_track trks)"
    by (induction trks) (simp_all add: bytes_write_track)
  then have "bytes (concat (map write_track trks))"
    by (rule bytes_concat)
  moreover have "bytes (write_header (length trks) (nat tpb))"
    unfolding write_header_def by (intro bytes_write_chunk) (simp_all add: MThd_def bytes_be)
  ultimately show ?thesis
    by (simp add: bs)
qed

subsection \<open>The file of the script\<close>

lemma length_be24 [simp]: "length (be24 n) = 3"
  by (simp add: be24_def)

lemmas codec_eval = encode_variable_int_def vlq_high_pos fix_end_of_track_def

lemma built_tracks_encodable: "list_all (list_all encodable) built_tracks"
  by (simp add: built_tracks_eq score_defs data_byte_def)

lemma built_tracks_data_lengths:
  "map (\<lambda>ms. length (track_data None (fix_end_of_track ms))) built_tracks = [11, 175, 295, 583]"
  by (simp add: built_tracks_eq score_defs codec_eval)

lemma length_built_tracks: "length built_tracks = 4"
  by (simp add: built_tracks_eq)

lemma serialize_built:
  "serialize 480 built_tracks =
     Some (write_header 4 480 @ concat (map write_track built_tracks))"
proof -
  have "list_all (\<lambda>n. n < 4294967296)
          (map (\<lambda>ms. length (track_data None (fix_end_of_track ms))) built_tracks)"
    unfolding built_tracks_data_lengths by simp
  then have "list_all (\<lambda>ms. length (track_data None (fix_end_of_track ms)) < 4294967296)
          built_tracks"
    by (simp add: list_all_iff)
  then show ?thesis
    using built_tracks_encodable by (simp add: serialize_def length_built_tracks)
qed

lemma control_track_written:
  "write_header 4 480 @ write_track (built_tracks ! 0) =
     [0x4D, 0x54, 0x68, 0x64, 0, 0, 0, 6, 0, 1, 0, 4, 0x01, 0xE0,
      0x4D, 0x54, 0x72, 0x6B, 0, 0, 0, 11,
      0, 0xFF, 0x51, 3, 0x0A, 0x2C, 0x2B, 0, 0xFF, 0x2F, 0]"
  by (simp add: built_tracks_eq control_events_def default_config_def write_header_def
      write_track_def write_chunk_def MThd_def MTrk_def be16_def be24_def be32_def codec_eval)

lemma built_tracks_totals: "map total_ticks built_tracks = [0, 7680, 19200, 15360]"
  by (simp add: built_tracks_eq total_ticks_def score_defs)

lemma small_file:
  "serialize 96 [[Note_on 60 64 0, Note_off 60 0 200]] =
     Some [77, 84, 104, 100, 0, 0, 0, 6, 0, 1, 0, 1, 0, 96, 77, 84, 114, 107, 0, 0,
           0, 13, 0, 144, 60, 64, 129, 72, 128, 60, 0, 0, 255, 47, 0]"
  by (simp add: serialize_def data_byte_def write_header_def
      write_track_def write_chunk_def MThd_def MTrk_def be16_def be32_def codec_eval)

section \<open>The claims\<close>

text \<open>
  C1. The body of the pad loop, run on the chord \<open>[62, 65, 69]\<close> with velocity 40, appends
  to the track exactly three NoteOns with delta-time 0 followed by three NoteOffs with
  delta-times 960, 0, 0. For every chord the pad loop runs on (the four chords of the table,
  twice) the body appends three NoteOns of the chord's pitches with delta-time 0, then the
  NoteOff of the first pitch with delta-time 960 and the NoteOffs of the other two with
  delta-time 0; the pad track is its program change followed by these groups, each the
  spec's \<open>emitChord\<close> with duration 960.
\<close>

theorem pad_chord_deltas:
  "pad_chord t 40 [62, 65, 69] st =
     Inr (track_extend t
       [Note_on 62 40 0, Note_on 65 40 0, Note_on 69 40 0,
        Note_off 62 0 960, Note_off 65 0 0, Note_off 69 0 0] st)
   \<and> (\<forall>chord \<in> set (times pad_chords 2).
        \<exists>a b c. chord = [a, b, c] \<and>
          pad_chord t (pad_velocity default_config) chord st =
            Inr (track_extend t
              [Note_on a 40 0, Note_on b 40 0, Note_on c 40 0,
               Note_off a 0 960, Note_off b 0 0, Note_off c 0 0] st))
   \<and> built_tracks ! 1 =
       Program_change 90 0 # concat (map (\<lambda>chord. emitChord chord 40 960) (times pad_chords 2))"
proof (intro conjI ballI)
  show "pad_chord t 40 [62, 65, 69] st =
     Inr (track_extend t
       [Note_on 62 40 0, Note_on 65 40 0, Note_on 69 40 0,
        Note_off 62 0 960, Note_off 65 0 0, Note_off 69 0 0] st)"
    by (simp add: pad_chord_ok data_byte_def emitChord_def)
next
  fix chord assume "chord \<in> set (times pad_chords 2)"
  then have ok: "length chord = 3" "list_all data_byte chord"
    using pad_chords_ok by (auto simp: list_all_iff)
  then obtain a b c where "chord = [a, b, c]"
    by (auto simp: length_Suc_conv numeral_3_eq_3)
  with ok show "\<exists>a b c. chord = [a, b, c] \<and>
          pad_chord t (pad_velocity default_config) chord st =
            Inr (track_extend t
              [Note_on a 40 0, Note_on b 40 0, Note_on c 40 0,
               Note_off a 0 960, Note_off b 0 0, Note_off c 0 0] st)"
    using pad_chord_ok [of chord "pad_velocity default_config" t st]
    by (simp add: default_config_def data_byte_def emitChord_def)
next
  show "built_tracks ! 1 =
       Program_change 90 0 # concat (map (\<lambda>chord. emitChord chord 40 960) (times pad_chords 2))"
    by (simp add: built_tracks_eq pad_events_def default_config_def)
qed

theorem pad_chord_deltas_witness:
  "[55, 59, 62] \<in> set (times pad_chords 2) \<and>
   pad_chord 1 40 [55, 59, 62]
     \<lparr>ticks_per_beat = 480, tracks = [0, 1],
      objects = [[Set_tempo 666667 0], [Program_change 90 0]]\<rparr> =
   Inr \<lparr>ticks_per_beat = 480, tracks = [0, 1],
        objects = [[Set_tempo 666667 0],
                   [Program_change 90 0, Note_on 55 40 0, Note_on 59 40 0, Note_on 62 40 0,
                    Note_off 55 0 960, Note_off 59 0 0, Note_off 62 0 0]]\<rparr>"
proof -
  have mem: "[55, 59, 62] \<in> set (times pad_chords 2)"
    by (simp add: pad_chords_def times_2)
  show ?thesis
    using mem pad_chord_deltas [of 1 "\<lparr>ticks_per_beat = 480, tracks = [0, 1],
      objects = [[Set_tempo 666667 0], [Program_change 90 0]]\<rparr>", THEN conjunct2, THEN conjunct1,
      THEN bspec, OF mem]
    by (simp add: track_extend_def default_config_def)
qed

text \<open>
  C2. On each of the three musical tracks of the built file (pad, melody, arpeggio) every
  NoteOn is followed, later on the same track, by a NoteOff of the same pitch; after no
  prefix of the track is a pitch open twice; and at the end of the track no note is open.
\<close>

theorem tracks_well_formed:
  "well_formed (built_tracks ! 1) \<and> well_formed (built_tracks ! 2) \<and>
   well_formed (built_tracks ! 3)"
  by (simp add: built_tracks_eq closes_well_formed pad_closes melody_closes arp_closes)

theorem tracks_well_formed_witness:
  "is_note_on 62 (built_tracks ! 1 ! 1) \<and>
   (\<exists>j. 1 < j \<and> j < length (built_tracks ! 1) \<and> is_note_off 62 (built_tracks ! 1 ! j)) \<and>
   distinct (open_notes (take 3 (built_tracks ! 1)))"
proof -
  have len: "length (built_tracks ! 1) = 49"
    by (simp add: built_tracks_eq score_defs)
  have on: "is_note_on 62 (built_tracks ! 1 ! 1)"
    by (simp add: built_tracks_eq score_defs)
  from tracks_well_formed have wf: "well_formed (built_tracks ! 1)" by simp
  then have "every_on_closed (built_tracks ! 1)" by (simp add: well_formed_def)
  then have "1 < length (built_tracks ! 1) \<and> is_note_on 62 (built_tracks ! 1 ! 1) \<longrightarrow>
      (\<exists>j. 1 < j \<and> j < length (built_tracks ! 1) \<and> is_note_off 62 (built_tracks ! 1 ! j))"
    unfolding every_on_closed_def by blast
  with on len
  have "\<exists>j. 1 < j \<and> j < length (built_tracks ! 1) \<and> is_note_off 62 (built_tracks ! 1 ! j)"
    by simp
  moreover from wf have "never_doubly_open (built_tracks ! 1)" by (simp add: well_formed_def)
  with len have "distinct (open_notes (take 3 (built_tracks ! 1)))"
    by (simp add: never_doubly_open_def)
  ultimately show ?thesis using on by simp
qed

text \<open>
  C7 (on the constructor modelled from the spec). A program change with program id 128 is
  rejected with InvalidRange, and appending it to a track fails the same way. The script
  run with 128 as the program id of any of its three layers ends with InvalidRange before
  the save: whatever the writer and the file system, the file system is left as it was.
\<close>

theorem program_128_rejected:
  "Message_program_change 128 0 = Inl InvalidRange \<and>
   append_msg t (Message_program_change 128 0) st = Inl InvalidRange \<and>
   generate_midi save (default_config\<lparr>pad_program := 128\<rparr>) fs = (Some InvalidRange, fs) \<and>
   generate_midi save (default_config\<lparr>melody_program := 128\<rparr>) fs = (Some InvalidRange, fs) \<and>
   generate_midi save (default_config\<lparr>arp_program := 128\<rparr>) fs = (Some InvalidRange, fs)"
  by (simp add: generate_midi_def build_def default_config_def MidiFile_def tempo_section_ok
      pad_section_ok melody_section_ok data_byte_def
      pad_section_bad melody_section_bad arp_section_bad
      Message_program_change_def)

text \<open>
  C8. The build succeeds with four tracks in \<^verbatim>\<open>mid.tracks\<close>, in the order they were appended.
  The first holds the one tempo message (666667 microseconds per beat, delta-time 0) and
  nothing else; the second, third and fourth start with the program changes of the pad
  (90), the melody (73) and the arpeggio (46). The writer is called with the resolution 480
  and these four tracks in this order.
\<close>

theorem control_track_first:
  "build default_config =
     Inr \<lparr>ticks_per_beat = 480, tracks = [0, 1, 2, 3], objects = built_tracks\<rparr>
   \<and> length built_tracks = 4
   \<and> built_tracks ! 0 = [Set_tempo 666667 0]
   \<and> hd (built_tracks ! 1) = Program_change 90 0
   \<and> hd (built_tracks ! 2) = Program_change 73 0
   \<and> hd (built_tracks ! 3) = Program_change 46 0
   \<and> generate_midi save default_config fs = save 480 built_tracks file_path fs"
proof -
  have "file_tracks \<lparr>ticks_per_beat = 480, tracks = [0, 1, 2, 3], objects = built_tracks\<rparr>
          = built_tracks"
    by (simp add: file_tracks_def built_tracks_eq)
  then have "generate_midi save default_config fs = save 480 built_tracks file_path fs"
    by (simp add: generate_midi_def build_default)
  moreover have "length built_tracks = 4" "built_tracks ! 0 = [Set_tempo 666667 0]"
    "hd (built_tracks ! 1) = Program_change 90 0"
    "hd (built_tracks ! 2) = Program_change 73 0"
    "hd (built_tracks ! 3) = Program_change 46 0"
    by (simp_all add: built_tracks_eq control_events_def pad_events_def melody_events_def
        arp_events_def default_config_def)
  ultimately show ?thesis
    using build_default by simp
qed

text \<open>
  C9. The delta-times of the pad track sum to 7680 ticks, those of the melody track to
  19200 and those of the arpeggio track to 15360, three different totals. Only NoteOffs
  advance the time: the pad has 8 chords whose NoteOffs carry 960, 0, 0; the melody has 4
  phrases of 8 notes, the note at position \<open>i\<close> lasting \<open>duration i\<close>, which is 960 at
  positions 3 and 7 and 480 elsewhere; the arpeggio has 16 patterns of 4 notes of 240.
\<close>

theorem layer_durations:
  "total_ticks (built_tracks ! 1) = 7680 \<and>
   total_ticks (built_tracks ! 2) = 19200 \<and>
   total_ticks (built_tracks ! 3) = 15360 \<and>
   total_ticks (built_tracks ! 1) \<noteq> total_ticks (built_tracks ! 2) \<and>
   total_ticks (built_tracks ! 2) \<noteq> total_ticks (built_tracks ! 3) \<and>
   total_ticks (built_tracks ! 1) \<noteq> total_ticks (built_tracks ! 3) \<and>
   concat (map off_time (built_tracks ! 1)) = concat (replicate 8 [960, 0, 0]) \<and>
   concat (map off_time (built_tracks ! 2)) =
     concat (replicate 4 (map duration [0, 1, 2, 3, 4, 5, 6, 7])) \<and>
   map duration [0, 1, 2, 3, 4, 5, 6, 7] = [480, 480, 480, 960, 480, 480, 480, 960] \<and>
   concat (map off_time (built_tracks ! 3)) = concat (replicate 16 (replicate 4 240)) \<and>
   concat (map on_time (built_tracks ! 1)) = replicate 24 0 \<and>
   concat (map on_time (built_tracks ! 2)) = replicate 32 0 \<and>
   concat (map on_time (built_tracks ! 3)) = replicate 64 0 \<and>
   map time (map hd (tl built_tracks)) = [0, 0, 0]"
proof -
  have sums: "total_ticks (built_tracks ! 1) = 7680" "total_ticks (built_tracks ! 2) = 19200"
    "total_ticks (built_tracks ! 3) = 15360"
    by (simp_all add: built_tracks_eq total_ticks_def score_defs)
  have offs: "concat (map off_time (built_tracks ! 1)) = concat (replicate 8 [960, 0, 0])"
    "concat (map off_time (built_tracks ! 2)) =
       concat (replicate 4 (map duration [0, 1, 2, 3, 4, 5, 6, 7]))"
    "map duration [0, 1, 2, 3, 4, 5, 6, 7] = [480, 480, 480, 960, 480, 480, 480, 960]"
    "concat (map off_time (built_tracks ! 3)) = concat (replicate 16 (replicate 4 240))"
    by (simp_all add: built_tracks_eq score_defs)
  have ons: "concat (map on_time (built_tracks ! 1)) = replicate 24 0"
    "concat (map on_time (built_tracks ! 2)) = replicate 32 0"
    "concat (map on_time (built_tracks ! 3)) = replicate 64 0"
    "map time (map hd (tl built_tracks)) = [0, 0, 0]"
    by (simp_all add: built_tracks_eq score_defs)
  from sums offs ons show ?thesis by simp
qed

text \<open>
  C10. The constants of the script pass every check of the constructors: the resolution
  480 and the tempo 666667 are positive, the program ids 90, 73, 46 and the velocities 40,
  55, 35 and 0 are in 0..127, and every pitch lies between 55 and 76 (both occur), so in
  0..127. Each layer holds only its own program change, NoteOns of its own velocity and
  NoteOffs of velocity 0. The build returns a file object: it ends in no error.
\<close>

theorem constants_within_bounds:
  "valid_config default_config \<and>
   (\<exists>st. build default_config = Inr st) \<and>
   (\<forall>e. build default_config \<noteq> Inl e) \<and>
   list_all (layer_bounds 90 40) (built_tracks ! 1) \<and>
   list_all (layer_bounds 73 55) (built_tracks ! 2) \<and>
   list_all (layer_bounds 46 35) (built_tracks ! 3) \<and>
   Note_on 55 40 0 \<in> set (built_tracks ! 1) \<and>
   Note_on 76 55 0 \<in> set (built_tracks ! 2) \<and>
   list_all data_byte [55, 76, 40, 55, 35, 0, 90, 73, 46]"
proof -
  have "list_all (layer_bounds 90 40) (built_tracks ! 1)"
    "list_all (layer_bounds 73 55) (built_tracks ! 2)"
    "list_all (layer_bounds 46 35) (built_tracks ! 3)"
    "Note_on 55 40 0 \<in> set (built_tracks ! 1)"
    "Note_on 76 55 0 \<in> set (built_tracks ! 2)"
    by (simp_all add: built_tracks_eq score_defs)
  moreover have "list_all data_byte [55, 76, 40, 55, 35, 0, 90, 73, 46]"
    by (simp add: data_byte_def)
  ultimately show ?thesis
    using valid_default_config build_default by simp
qed

text \<open>
  C3 (on the serializer and reader modelled from the format). A track's total duration is
  the sum of the delta-times of its messages: 0, 7680, 19200 and 15360 ticks for the four
  tracks of the built file. The file serializes, and reading the bytes back gives the same resolution and, track by
  track, the same messages with the end-of-track message (delta-time 0) the writer adds:
  the sums of the delta-times of the tracks read are those of the tracks written. The same
  holds for every resolution and list of tracks that serializes.
\<close>

theorem durations_round_trip:
  "(\<exists>bs. serialize 480 built_tracks = Some bs \<and>
         read_file bs = Some (480, map fix_end_of_track built_tracks)) \<and>
   map total_ticks (map fix_end_of_track built_tracks) = map total_ticks built_tracks \<and>
   map total_ticks built_tracks = [0, 7680, 19200, 15360] \<and>
   (\<forall>tpb trks bs. serialize tpb trks = Some bs \<longrightarrow>
      (\<exists>trks'. read_file bs = Some (tpb, trks') \<and>
               map total_ticks trks' = map total_ticks trks))"
proof (intro conjI allI impI)
  show "\<exists>bs. serialize 480 built_tracks = Some bs \<and>
         read_file bs = Some (480, map fix_end_of_track built_tracks)"
    using serialize_built read_file_serialize by blast
  show "map total_ticks (map fix_end_of_track built_tracks) = map total_ticks built_tracks"
    by (simp add: total_ticks_fix_end_of_track)
  show "map total_ticks built_tracks = [0, 7680, 19200, 15360]"
    by (rule built_tracks_totals)
next
  fix tpb trks bs
  assume "serialize tpb trks = Some bs"
  then have "read_file bs = Some (tpb, map fix_end_of_track trks)"
    by (rule read_file_serialize)
  moreover have "map total_ticks (map fix_end_of_track trks) = map total_ticks trks"
    by (simp add: total_ticks_fix_end_of_track)
  ultimately show "\<exists>trks'. read_file bs = Some (tpb, trks') \<and>
      map total_ticks trks' = map total_ticks trks"
    by blast
qed

theorem durations_round_trip_witness:
  "serialize 96 [[Note_on 60 64 0, Note_off 60 0 200]] =
     Some [77, 84, 104, 100, 0, 0, 0, 6, 0, 1, 0, 1, 0, 96, 77, 84, 114, 107, 0, 0,
           0, 13, 0, 144, 60, 64, 129, 72, 128, 60, 0, 0, 255, 47, 0] \<and>
   (\<exists>trks'. read_file [77, 84, 104, 100, 0, 0, 0, 6, 0, 1, 0, 1, 0, 96, 77, 84, 114, 107, 0, 0,
                       0, 13, 0, 144, 60, 64, 129, 72, 128, 60, 0, 0, 255, 47, 0] =
              Some (96, trks') \<and>
            map total_ticks trks' = [200])"
proof -
  note general = durations_round_trip [THEN conjunct2, THEN conjunct2, THEN conjunct2,
      rule_format, OF small_file]
  then show ?thesis
    using small_file by (simp add: total_ticks_def)
qed

text \<open>
  C4 (on the serializer and reader modelled from the format). The built file (resolution
  480, one tempo message of 666667 on the control track) serializes; its first 33 bytes are the header chunk with the three
  fields 1, 4 and \<open>0x01E0 = 480\<close>, and the control track with the tempo bytes
  \<open>0x0A2C2B = 666667\<close>. Reading the header back gives 480, and reading the file back gives
  480 and a first track that holds the tempo message with 666667 and the end of track.
\<close>

theorem header_and_tempo_round_trip:
  "\<exists>bs rest trks.
     serialize 480 built_tracks = Some bs \<and>
     take 33 bs =
       [0x4D, 0x54, 0x68, 0x64, 0, 0, 0, 6, 0, 1, 0, 4, 0x01, 0xE0,
        0x4D, 0x54, 0x72, 0x6B, 0, 0, 0, 11,
        0, 0xFF, 0x51, 3, 0x0A, 0x2C, 0x2B, 0, 0xFF, 0x2F, 0] \<and>
     read_header bs = Some ((1, 4, 480), rest) \<and>
     read_file bs = Some (480, trks) \<and>
     trks ! 0 = [Set_tempo 666667 0, End_of_track 0]"
proof -
  let ?bs = "write_header 4 480 @ concat (map write_track built_tracks)"
  have ser: "serialize 480 built_tracks = Some ?bs"
    by (rule serialize_built)
  have split: "?bs = (write_header 4 480 @ write_track (built_tracks ! 0)) @
      concat (map write_track (tl built_tracks))"
    by (simp add: built_tracks_eq)
  have "take 33 ?bs = write_header 4 480 @ write_track (built_tracks ! 0)"
    unfolding split control_track_written by simp
  then have bytes: "take 33 ?bs =
       [0x4D, 0x54, 0x68, 0x64, 0, 0, 0, 6, 0, 1, 0, 4, 0x01, 0xE0,
        0x4D, 0x54, 0x72, 0x6B, 0, 0, 0, 11,
        0, 0xFF, 0x51, 3, 0x0A, 0x2C, 0x2B, 0, 0xFF, 0x2F, 0]"
    by (simp only: control_track_written)
  have hdr: "read_header ?bs = Some ((1, 4, 480), concat (map write_track built_tracks))"
    by (intro read_header_written) simp_all
  have whole: "read_file ?bs = Some (480, map fix_end_of_track built_tracks)"
    using ser by (rule read_file_serialize)
  have "map fix_end_of_track built_tracks ! 0 = [Set_tempo 666667 0, End_of_track 0]"
    by (simp add: built_tracks_eq control_events_def default_config_def fix_end_of_track_def)
  with ser bytes hdr whole show ?thesis by blast
qed

end
